theory Spec2Isabelle
  imports Complex_Main
begin

section \<open>Exceptions\<close>

text \<open>
  The exceptions that can leave one of the two load adapters (\<open>load_scipy\<close>,
  \<open>load_h5py\<close>): the class, as far as an \<open>except\<close> clause of \<open>matdata.py\<close> can tell
  classes apart, and the constructor's argument. \<open>OSError\<close> stands for the class and its
  subclasses (what \<open>except OSError\<close> catches); every class here is a subclass of
  \<open>Exception\<close>. For an attribute error that the interpreter raises, the string is the
  name of the missing attribute.
\<close>

datatype exc_class =
  OSError | TypeError | ValueError | KeyErrorClass | AttributeErrorClass | OtherException

datatype load_exc = Raised exc_class string

text \<open>
  The exceptions that can leave the facade \<open>MatData\<close>. \<open>Exception prefix e\<close> is
  \<open>Exception(f"Error loading mat file: {e}") from e\<close>: the literal part of the message and
  the exception \<open>e\<close>, which is both interpolated into the message and kept as the cause.
  \<open>Unwrapped e\<close> is an adapter's exception that reaches the caller as it was raised.
\<close>

datatype matdata_exc =
    FileNotFoundError string
  | AttributeError string
  | Unwrapped load_exc
  | Exception string load_exc
  | KeyError string

section \<open>Arrays\<close>

text \<open>
  A numpy array: the kind of its dtype (\<open>dtype.kind\<close>, one character), its shape and
  its elements in row-major order.
\<close>

datatype 'e ndarray = NdArray (kind: char) (shape: "nat list") (elems: "'e list")

definition wf_ndarray :: "'e ndarray \<Rightarrow> bool" where
  "wf_ndarray a = (length (elems a) = prod_list (shape a))"

definition ndim :: "'e ndarray \<Rightarrow> nat" where
  "ndim a = length (shape a)"

text \<open>Row-major position of a multi-index, and the multi-index of a position.\<close>

fun flat_index :: "nat list \<Rightarrow> nat list \<Rightarrow> nat" where
  "flat_index (d # ds) (i # is) = i * prod_list ds + flat_index ds is"
| "flat_index _ _ = 0"

fun unflat_index :: "nat list \<Rightarrow> nat \<Rightarrow> nat list" where
  "unflat_index [] n = []"
| "unflat_index (d # ds) n = (n div prod_list ds) # unflat_index ds (n mod prod_list ds)"

definition valid_index :: "nat list \<Rightarrow> nat list \<Rightarrow> bool" where
  "valid_index sh idx = list_all2 (\<lambda>i d. i < d) idx sh"

definition nd_get :: "'e ndarray \<Rightarrow> nat list \<Rightarrow> 'e" where
  "nd_get a idx = elems a ! flat_index (shape a) idx"

text \<open>\<open>data.T\<close>: the axes in reverse order.\<close>

definition nd_T :: "'e ndarray \<Rightarrow> 'e ndarray" where
  "nd_T a =
     NdArray (kind a) (rev (shape a))
       (map (\<lambda>j. elems a ! flat_index (shape a) (rev (unflat_index (rev (shape a)) j)))
          [0..<length (elems a)])"

text \<open>\<open>np.squeeze(data)\<close>: the axes of length one removed.\<close>

definition squeeze :: "'e ndarray \<Rightarrow> 'e ndarray" where
  "squeeze a = NdArray (kind a) (filter (\<lambda>d. d \<noteq> 1) (shape a)) (elems a)"

text \<open>\<open>data.item()\<close>: the only element of an array of size one.\<close>

definition item :: "'e ndarray \<Rightarrow> load_exc + 'e" where
  "item a =
     (case elems a of
        [x] \<Rightarrow> Inr x
      | _ \<Rightarrow> Inl (Raised ValueError ''can only convert an array of size 1 to a Python scalar''))"

text \<open>
  \<open>for item in value\<close>: an array is iterated along its first axis. A one-dimensional
  array yields its elements, an array of more dimensions yields its sub-arrays, and an
  array of no dimension cannot be iterated.
\<close>

fun nd_iter :: "'e ndarray \<Rightarrow> load_exc + ('e + 'e ndarray) list" where
  "nd_iter (NdArray k [] xs) = Inl (Raised TypeError ''iteration over a 0-d array'')"
| "nd_iter (NdArray k [d] xs) = Inr (map Inl (take d xs))"
| "nd_iter (NdArray k (d # ds) xs) =
     Inr (map (\<lambda>i. Inr (NdArray k ds (take (prod_list ds) (drop (i * prod_list ds) xs))))
            [0..<d])"

section \<open>Values\<close>

text \<open>
  The nodes of an opened HDF5 file: a dataset that stores an array of opaque elements
  \<open>'a\<close>, a dataset with a null dataspace, which stores nothing, a group of named
  children in the store's iteration order, or an object of another type, given by the
  name of its type.
\<close>

datatype 'a h5node =
    Dataset "'a ndarray"
  | NullDataset
  | Group "(string \<times> 'a h5node) list"
  | OtherNode string

text \<open>
  \<open>mat_obj[()]\<close>, the whole content of a dataset as h5py returns it. A stored array of
  at least one dimension comes as a numpy array, and a stored array of no dimension as a
  numpy scalar, which has the attributes \<open>ndim\<close>, \<open>T\<close>, \<open>shape\<close> and \<open>item\<close> of an
  array of no dimension. But for a stored array of no dimension and of kind \<open>O\<close> (a
  variable-length string, a reference) h5py returns the Python object itself, and for a
  null dataspace an \<open>h5py.Empty\<close>: neither has the attribute \<open>ndim\<close>.
\<close>

datatype 'e materialised = NumpyValue "'e ndarray" | PlainObject

definition read_dataset :: "'e ndarray \<Rightarrow> 'e materialised" where
  "read_dataset a = (if shape a = [] \<and> kind a = CHR ''O'' then PlainObject else NumpyValue a)"

text \<open>
  The Python values the adapters produce: a scalar, an array (whose elements, for an
  array of kind \<open>O\<close>, are Python values again), a list, a dict in insertion order.
\<close>

datatype 'a pyval =
    Scalar 'a
  | Array "'a pyval ndarray"
  | PyList "'a pyval list"
  | PyDict "(string \<times> 'a pyval) list"

type_synonym 'a pydict = "(string \<times> 'a pyval) list"

text \<open>A comprehension whose body may raise: the first exception ends it.\<close>

fun map_result :: "('x \<Rightarrow> 'err + 'y) \<Rightarrow> 'x list \<Rightarrow> 'err + 'y list" where
  "map_result f [] = Inr []"
| "map_result f (x # xs) =
     (case f x of
        Inl e \<Rightarrow> Inl e
      | Inr y \<Rightarrow> (case map_result f xs of Inl e \<Rightarrow> Inl e | Inr ys \<Rightarrow> Inr (y # ys)))"

lemma map_result_cong [fundef_cong]:
  "xs = ys \<Longrightarrow> (\<And>x. x \<in> set ys \<Longrightarrow> f x = g x) \<Longrightarrow> map_result f xs = map_result g ys"
  by (induction ys arbitrary: xs) (auto split: sum.splits)

text \<open>
  \<open>{k: v for ...}\<close>: a dict built from pairs in order. A key met again keeps its place
  and takes the later value.
\<close>

fun dict_set :: "string \<Rightarrow> 'v \<Rightarrow> (string \<times> 'v) list \<Rightarrow> (string \<times> 'v) list" where
  "dict_set k v [] = [(k, v)]"
| "dict_set k v ((k', v') # d) = (if k = k' then (k, v) # d else (k', v') # dict_set k v d)"

definition dict_of :: "(string \<times> 'v) list \<Rightarrow> (string \<times> 'v) list" where
  "dict_of kvs = foldl (\<lambda>d kv. dict_set (fst kv) (snd kv) d) [] kvs"

definition dict_keys :: "(string \<times> 'v) list \<Rightarrow> string list" where
  "dict_keys d = map fst d"

text \<open>\<open>d[k]\<close>: raises \<open>KeyError(k)\<close> for a key that is absent.\<close>

definition dict_getitem :: "(string \<times> 'v) list \<Rightarrow> string \<Rightarrow> load_exc + 'v" where
  "dict_getitem d k =
     (case map_of d k of None \<Rightarrow> Inl (Raised KeyErrorClass k) | Some v \<Rightarrow> Inr v)"

section \<open>The hierarchical adapter\<close>

text \<open>
  \<open>_mat_to_dict\<close> of \<open>load_h5py\<close>; \<open>squeeze_me\<close> is the enclosing function's flag.
  \<open>dataset_steps\<close> is the first half of the dataset branch for a numpy value: it is
  transposed when it has more than one dimension, and squeezed when the flag is set.
  For a value without the attribute \<open>ndim\<close> the test \<open>data.ndim > 1\<close> raises.
\<close>

definition dataset_steps :: "bool \<Rightarrow> 'e ndarray \<Rightarrow> 'e ndarray" where
  "dataset_steps squeeze_me mat_obj =
     (let data = mat_obj;
          data = (if ndim data > 1 then nd_T data else data);
          data = (if squeeze_me then squeeze data else data)
      in data)"

fun mat_to_dict :: "bool \<Rightarrow> 'a h5node \<Rightarrow> load_exc + 'a pyval" where
  "mat_to_dict squeeze_me (Dataset mat_obj) =
     (case read_dataset mat_obj of
        PlainObject \<Rightarrow> Inl (Raised AttributeErrorClass ''ndim'')
      | NumpyValue data \<Rightarrow>
          (let data = dataset_steps squeeze_me data
           in if shape data = []
              then (case item data of Inl e \<Rightarrow> Inl e | Inr x \<Rightarrow> Inr (Scalar x))
              else Inr (Array (map_ndarray Scalar data))))"
| "mat_to_dict squeeze_me NullDataset = Inl (Raised AttributeErrorClass ''ndim'')"
| "mat_to_dict squeeze_me (Group children) =
     (case map_result
              (\<lambda>kv. case mat_to_dict squeeze_me (snd kv) of
                       Inl e \<Rightarrow> Inl e
                     | Inr v \<Rightarrow> Inr (fst kv, v))
              children of
        Inl e \<Rightarrow> Inl e
      | Inr kvs \<Rightarrow> Inr (PyDict (dict_of kvs)))"
| "mat_to_dict squeeze_me (OtherNode type_name) =
     Inl (Raised TypeError (''Unsupported MATLAB object type: '' @ type_name))"

text \<open>
  \<open>_simplify\<close> of \<open>load_h5py\<close>. The recursion follows the iteration over an array, so it
  is not structural; it ends because an item is an element of the array or an array of
  one dimension less.
\<close>

primrec vsize :: "'a pyval \<Rightarrow> nat" where
  "vsize (Scalar x) = 1"
| "vsize (Array a) = Suc (length (shape a) + sum_list (elems (map_ndarray vsize a)))"
| "vsize (PyList xs) = Suc (sum_list (map vsize xs))"
| "vsize (PyDict kvs) = Suc (sum_list (map snd (map (map_prod id vsize) kvs)))"

lemma elem_le_sum_list:
  "x \<in> set xs \<Longrightarrow> f x \<le> sum_list (map (f :: 'b \<Rightarrow> nat) xs)"
  by (induction xs) auto

lemma sum_list_take_drop_le:
  "sum_list (map f (take n (drop m xs))) \<le> sum_list (map (f :: 'b \<Rightarrow> nat) xs)"
proof -
  have "sum_list (map f xs) = sum_list (map f (take m xs)) + sum_list (map f (drop m xs))"
    by (metis append_take_drop_id map_append sum_list.append)
  moreover have "sum_list (map f (drop m xs)) =
      sum_list (map f (take n (drop m xs))) + sum_list (map f (drop n (drop m xs)))"
    by (metis append_take_drop_id map_append sum_list.append)
  ultimately show ?thesis by simp
qed

lemma nd_iter_elem:
  "nd_iter a = Inr items \<Longrightarrow> Inl v \<in> set items \<Longrightarrow> v \<in> set (elems a)"
  by (induction a rule: nd_iter.induct) (auto dest: in_set_takeD)

lemma nd_iter_sub:
  "nd_iter a = Inr items \<Longrightarrow> Inr sub \<in> set items \<Longrightarrow>
     Suc (length (shape sub)) = length (shape a) \<and>
     sum_list (map f (elems sub)) \<le> sum_list (map (f :: 'b \<Rightarrow> nat) (elems a))"
  by (induction a rule: nd_iter.induct) (auto simp: sum_list_take_drop_le)

function simplify :: "'a pyval \<Rightarrow> load_exc + 'a pyval" where
  "simplify (Array a) =
     (if kind a = CHR ''O''
      then (case nd_iter a of
              Inl e \<Rightarrow> Inl e
            | Inr items \<Rightarrow>
                (case map_result
                        (\<lambda>it. case it of Inl v \<Rightarrow> simplify v | Inr sub \<Rightarrow> simplify (Array sub))
                        items of
                   Inl e \<Rightarrow> Inl e
                 | Inr vs \<Rightarrow> Inr (PyList vs)))
      else Inr (Array a))"
| "simplify (PyDict d) =
     (case map_result
             (\<lambda>kv. case simplify (snd kv) of Inl e \<Rightarrow> Inl e | Inr v \<Rightarrow> Inr (fst kv, v))
             d of
        Inl e \<Rightarrow> Inl e
      | Inr kvs \<Rightarrow> Inr (PyDict (dict_of kvs)))"
| "simplify (Scalar x) = Inr (Scalar x)"
| "simplify (PyList xs) = Inr (PyList xs)"
  by pat_completeness auto
termination
proof (relation "measure vsize", goal_cases)
  case 1
  show ?case by simp
next
  case (2 a items it v)
  then have "v \<in> set (elems a)"
    by (auto dest: nd_iter_elem)
  then have "vsize v \<le> sum_list (map vsize (elems a))"
    by (rule elem_le_sum_list)
  then show ?case by (cases a) simp
next
  case (3 a items it sub)
  then have "Suc (length (shape sub)) = length (shape a) \<and>
     sum_list (map vsize (elems sub)) \<le> sum_list (map vsize (elems a))"
    by (auto dest: nd_iter_sub)
  then show ?case by (cases a; cases sub) simp
next
  case (4 d kv)
  then have "vsize (snd kv) \<le> sum_list (map (\<lambda>kv. vsize (snd kv)) d)"
    by (rule elem_le_sum_list)
  then show ?case by (simp add: comp_def)
qed

declare simplify.simps [simp del]



text \<open>
  \<open>data = _simplify(data)\<close> in \<open>load_h5py\<close>, where \<open>data\<close> is a dict: the result is
  a dict again, so the last case is never taken.
\<close>

definition simplify_data :: "'a pydict \<Rightarrow> load_exc + 'a pydict" where
  "simplify_data data =
     (case simplify (PyDict data) of
        Inl e \<Rightarrow> Inl e
      | Inr (PyDict d) \<Rightarrow> Inr d
      | Inr _ \<Rightarrow> Inl (Raised OtherException ''not a dict''))"

section \<open>The outside world\<close>

text \<open>
  What the module reads from outside: whether a path exists (\<open>Path.exists\<close>); what the
  HDF5 reader finds (\<open>h5py.File(mat_file, 'r')\<close>: an exception, or the items of the root
  group in the store's iteration order); what the legacy reader returns
  (\<open>scipy.io.loadmat\<close>, with its \<open>variable_names\<close>, \<open>squeeze_me\<close> and
  \<open>simplify_cells\<close> arguments); and the order in which Python iterates over a set of
  strings, given by its members.
\<close>

record 'a world =
  path_exists :: "string \<Rightarrow> bool"
  h5py_File :: "string \<Rightarrow> load_exc + (string \<times> 'a h5node) list"
  loadmat :: "string \<Rightarrow> string list option \<Rightarrow> bool \<Rightarrow> bool \<Rightarrow> load_exc + 'a pydict"
  set_iter :: "string list \<Rightarrow> string list"

text \<open>A set is iterated once over each of its members.\<close>

definition wf_set_iter :: "(string list \<Rightarrow> string list) \<Rightarrow> bool" where
  "wf_set_iter it = (\<forall>ks. set (it ks) = set ks \<and> (distinct ks \<longrightarrow> distinct (it ks)))"

section \<open>The adapters\<close>

definition load_scipy ::
  "'a world \<Rightarrow> string \<Rightarrow> string list option \<Rightarrow> bool \<Rightarrow> bool \<Rightarrow> load_exc + 'a pydict" where
  "load_scipy w mat_file variable_names squeeze_me simplify_cells =
     loadmat w mat_file variable_names squeeze_me simplify_cells"

text \<open>Python's truth value of \<open>variable_names\<close>: \<open>None\<close> and an empty sequence are false.\<close>

definition truthy_names :: "string list option \<Rightarrow> bool" where
  "truthy_names variable_names =
     (case variable_names of None \<Rightarrow> False | Some ns \<Rightarrow> ns \<noteq> [])"

text \<open>
  The last step of \<open>load_h5py\<close>: \<open>variables = set(data.keys()) & set(variable_names)\<close>,
  then \<open>{var: data[var] for var in variables}\<close>.
\<close>

definition filter_variables ::
  "(string list \<Rightarrow> string list) \<Rightarrow> string list \<Rightarrow> 'a pydict \<Rightarrow> load_exc + 'a pydict" where
  "filter_variables it names data =
     (let variables = it (filter (\<lambda>k. k \<in> set names) (remdups (dict_keys data)))
      in case map_result
                (\<lambda>var. case dict_getitem data var of Inl e \<Rightarrow> Inl e | Inr v \<Rightarrow> Inr (var, v))
                variables of
           Inl e \<Rightarrow> Inl e
         | Inr kvs \<Rightarrow> Inr (dict_of kvs))"

definition load_h5py ::
  "'a world \<Rightarrow> string \<Rightarrow> string list option \<Rightarrow> bool \<Rightarrow> bool \<Rightarrow> load_exc + 'a pydict" where
  "load_h5py w mat_file variable_names squeeze_me simplify_cells =
     (case h5py_File w mat_file of
        Inl e \<Rightarrow> Inl e
      | Inr mat \<Rightarrow>
          (case map_result
                  (\<lambda>kv. case mat_to_dict squeeze_me (snd kv) of
                           Inl e \<Rightarrow> Inl e
                         | Inr v \<Rightarrow> Inr (fst kv, v))
                  mat of
             Inl e \<Rightarrow> Inl e
           | Inr kvs \<Rightarrow>
               (case (if simplify_cells then simplify_data (dict_of kvs) else Inr (dict_of kvs)) of
                  Inl e \<Rightarrow> Inl e
                | Inr data \<Rightarrow>
                    (if truthy_names variable_names
                     then filter_variables (set_iter w)
                            (case variable_names of None \<Rightarrow> [] | Some ns \<Rightarrow> ns) data
                     else Inr data))))"

section \<open>The facade\<close>

text \<open>
  The \<open>mat_file\<close> argument of \<open>MatData\<close>, declared \<open>os.PathLike\<close>: a \<open>pathlib.Path\<close>, which
  has the method \<open>exists\<close>, or another path-like object (a \<open>PurePosixPath\<close>, a \<open>str\<close>),
  given by the name of its type, which has not. Both hold a path.
\<close>

datatype pathlike = PathObj string | OtherPathLike string string

text \<open>
  The calls of an adapter by the facade are recorded: which adapter, and the values of
  its parameters \<open>mat_file\<close>, \<open>variable_names\<close>, \<open>squeeze_me\<close>, \<open>simplify_cells\<close>.
\<close>

datatype adapter = LoadScipy | LoadH5py

datatype call = Call adapter string "string list option" bool bool

text \<open>
  \<open>load_method(mat_file, variable_names)\<close>: the two flags are not passed, so they take
  the defaults of the signatures, \<open>squeeze_me = True\<close> and \<open>simplify_cells = True\<close>.
\<close>

definition call_of :: "adapter \<Rightarrow> string \<Rightarrow> string list option \<Rightarrow> call" where
  "call_of load_method mat_file variable_names = Call load_method mat_file variable_names True True"

fun run_call :: "'a world \<Rightarrow> call \<Rightarrow> load_exc + 'a pydict" where
  "run_call w (Call LoadScipy mat_file variable_names squeeze_me simplify_cells) =
     load_scipy w mat_file variable_names squeeze_me simplify_cells"
| "run_call w (Call LoadH5py mat_file variable_names squeeze_me simplify_cells) =
     load_h5py w mat_file variable_names squeeze_me simplify_cells"

record 'a matdata =
  mat_file :: string
  data :: "'a pydict"

text \<open>
  \<open>if version:\<close> is Python's truth value of the argument: \<open>None\<close> and zero are false.
  The version is a number, given by its exact value. The literal \<open>7.2\<close> is a float: the
  double nearest to 7.2, which is \<open>8106479329266893 / 2 ^ 50\<close>, a little more than 7.2.
  Python compares a number with a float by their exact values.
\<close>

definition float_7_2 :: rat where
  "float_7_2 = 8106479329266893 / 1125899906842624"

definition truthy_version :: "rat option \<Rightarrow> bool" where
  "truthy_version version = (case version of None \<Rightarrow> False | Some v \<Rightarrow> v \<noteq> 0)"

definition select_load_method :: "rat option \<Rightarrow> adapter option" where
  "select_load_method version =
     (if truthy_version version
      then (case version of
              None \<Rightarrow> None
            | Some v \<Rightarrow> Some (if v \<le> float_7_2 then LoadScipy else LoadH5py))
      else None)"

definition is_OSError :: "load_exc \<Rightarrow> bool" where
  "is_OSError e = (case e of Raised c m \<Rightarrow> c = OSError)"

text \<open>
  \<open>MatData.__init__\<close>: the calls of the adapters it made, in order, and the exception it
  raised or the object it built.
\<close>

definition MatData_init ::
  "'a world \<Rightarrow> pathlike \<Rightarrow> string list option \<Rightarrow> rat option \<Rightarrow>
     call list \<times> (matdata_exc + 'a matdata)" where
  "MatData_init w mat_file_arg variable_names version =
     (case mat_file_arg of
        OtherPathLike type_name p \<Rightarrow>
          ([], Inl (AttributeError
             ([CHR 0x27] @ type_name @ [CHR 0x27] @ '' object has no attribute ''
               @ [CHR 0x27] @ ''exists'' @ [CHR 0x27])))
      | PathObj p \<Rightarrow>
          if \<not> path_exists w p
          then ([], Inl (FileNotFoundError
                  (''File '' @ [CHR 0x27] @ p @ [CHR 0x27] @ '' not found'')))
          else
            (case select_load_method version of
               Some load_method \<Rightarrow>
                 (let c = call_of load_method p variable_names
                  in case run_call w c of
                       Inr d \<Rightarrow> ([c], Inr \<lparr>mat_file = p, data = d\<rparr>)
                     | Inl e \<Rightarrow> ([c], Inl (Exception ''Error loading mat file: '' e)))
             | None \<Rightarrow>
                 (let c1 = call_of LoadH5py p variable_names
                  in case run_call w c1 of
                       Inr d \<Rightarrow> ([c1], Inr \<lparr>mat_file = p, data = d\<rparr>)
                     | Inl e1 \<Rightarrow>
                         if is_OSError e1
                         then
                           (let c2 = call_of LoadScipy p variable_names
                            in case run_call w c2 of
                                 Inr d \<Rightarrow> ([c1, c2], Inr \<lparr>mat_file = p, data = d\<rparr>)
                               | Inl e2 \<Rightarrow>
                                   ([c1, c2], Inl (Exception ''Error loading mat file: '' e2)))
                         else ([c1], Inl (Unwrapped e1)))))"

text \<open>\<open>MatData.get\<close>, \<open>MatData.get_keys\<close> and \<open>MatData.get_file\<close>.\<close>

definition get :: "'a matdata \<Rightarrow> string \<Rightarrow> matdata_exc + 'a pyval" where
  "get self var =
     (if var \<notin> set (dict_keys (data self))
      then Inl (KeyError (''Variable '' @ [CHR 0x27] @ var @ [CHR 0x27] @ '' not found in data''))
      else (case dict_getitem (data self) var of
              Inl e \<Rightarrow> Inl (Unwrapped e)
            | Inr v \<Rightarrow> Inr v))"

definition get_keys :: "'a matdata \<Rightarrow> string list" where
  "get_keys self = dict_keys (data self)"

definition get_file :: "'a matdata \<Rightarrow> string" where
  "get_file self = mat_file self"


section \<open>A concrete world\<close>

text \<open>
  Four files: \<open>data.mat\<close> is an HDF5 file with three datasets, \<open>odd.mat\<close> an HDF5 file
  that holds a named datatype, \<open>old.mat\<close> a legacy file, \<open>bad.mat\<close> a file neither
  reader can read. In this world Python iterates over a set of names in the reverse of
  the given order.
\<close>

definition example_file :: "(string \<times> nat h5node) list" where
  "example_file =
     [(''x'', Dataset (NdArray (CHR ''f'') [1, 1] [5])),
      (''m'', Dataset (NdArray (CHR ''f'') [3, 2] [1, 2, 3, 4, 5, 6])),
      (''c'', Dataset (NdArray (CHR ''O'') [2, 1] [7, 8]))]"

definition example_world :: "nat world" where
  "example_world =
     \<lparr>path_exists = (\<lambda>p. p \<in> {''data.mat'', ''odd.mat'', ''old.mat'', ''bad.mat''}),
      h5py_File = (\<lambda>p.
        if p = ''data.mat'' then Inr example_file
        else if p = ''odd.mat'' then Inr [(''t'', OtherNode ''Datatype'')]
        else Inl (Raised OSError ''Unable to open file'')),
      loadmat = (\<lambda>p names squeeze_me simplify_cells.
        if p = ''old.mat'' then Inr [(''y'', Scalar 1)]
        else Inl (Raised ValueError ''Unknown mat file type'')),
      set_iter = rev\<rparr>"

section \<open>Construction and dispatch\<close>

lemmas facade_defs = MatData_init_def select_load_method_def truthy_version_def call_of_def

text \<open>
  What the constructor does for a \<open>pathlib.Path\<close> that references no existing file, and
  what it does when no version is declared.
\<close>

lemma MatData_init_missing_Path:
  "\<not> path_exists w p \<Longrightarrow>
     MatData_init w (PathObj p) variable_names version =
       ([], Inl (FileNotFoundError (''File '' @ [CHR 0x27] @ p @ [CHR 0x27] @ '' not found'')))"
  by (simp add: MatData_init_def)

lemma MatData_init_no_version:
  assumes "path_exists w p"
  shows "MatData_init w (PathObj p) variable_names None =
     (case load_h5py w p variable_names True True of
        Inr d \<Rightarrow> ([Call LoadH5py p variable_names True True], Inr \<lparr>mat_file = p, data = d\<rparr>)
      | Inl e1 \<Rightarrow>
          if is_OSError e1
          then ([Call LoadH5py p variable_names True True,
                 Call LoadScipy p variable_names True True],
                case load_scipy w p variable_names True True of
                  Inr d \<Rightarrow> Inr \<lparr>mat_file = p, data = d\<rparr>
                | Inl e2 \<Rightarrow> Inl (Exception ''Error loading mat file: '' e2))
          else ([Call LoadH5py p variable_names True True], Inl (Unwrapped e1)))"
  using assms by (simp add: facade_defs Let_def split: sum.splits)

text \<open>
  C7. A path argument that references no existing file should make the construction
  fail with "file not found" before any reader is invoked. The constructor stores
  \<open>Path(mat_file)\<close> and then calls \<open>exists\<close> on the argument itself, not on the stored
  path: for a path-like argument that is not a \<open>pathlib.Path\<close> (here a
  \<open>PurePosixPath\<close> of a file that does not exist) the construction fails with an
  attribute error instead. No reader has been invoked.
\<close>

theorem C7_attribute_error_for_other_pathlike:
  "\<not> path_exists example_world ''missing.mat'' \<and>
   MatData_init example_world (OtherPathLike ''PurePosixPath'' ''missing.mat'') None None =
     ([], Inl (AttributeError
        ([CHR 0x27] @ ''PurePosixPath'' @ [CHR 0x27] @ '' object has no attribute ''
          @ [CHR 0x27] @ ''exists'' @ [CHR 0x27])))"
  by (simp add: MatData_init_def example_world_def)

text \<open>
  C1. With no declared version the hierarchical adapter is tried first, and a failure
  of it that is not a format or access error should reach the caller wrapped as
  "Error loading mat file". The first \<open>try\<close> has the clause \<open>except OSError\<close> only: on the
  file \<open>odd.mat\<close>, where \<open>_mat_to_dict\<close> raises a type error, that error leaves the
  constructor bare, while the same failure is wrapped when a version is declared.
\<close>

theorem C1_bare_type_error_without_version:
  "select_load_method None = None \<and>
   load_h5py example_world ''odd.mat'' None True True =
     Inl (Raised TypeError ''Unsupported MATLAB object type: Datatype'') \<and>
   MatData_init example_world (PathObj ''odd.mat'') None None =
     ([Call LoadH5py ''odd.mat'' None True True],
      Inl (Unwrapped (Raised TypeError ''Unsupported MATLAB object type: Datatype'')))"
  by (simp add: facade_defs example_world_def load_h5py_def is_OSError_def)






section \<open>Lookup\<close>

text \<open>
  C8. For a name that is not a key of the loaded mapping, \<open>get\<close> fails with a key error
  whose message holds the name; for a name that is a key, it returns the value stored
  under it, unchanged. This holds of every \<open>MatData\<close> object, so of every one that a
  construction returns.
\<close>

theorem C8_get:
  "(var \<notin> set (get_keys self) \<longrightarrow>
      get self var =
        Inl (KeyError (''Variable '' @ [CHR 0x27] @ var @ [CHR 0x27] @ '' not found in data''))) \<and>
   (var \<in> set (get_keys self) \<longrightarrow>
      (\<exists>v. (var, v) \<in> set (data self) \<and> map_of (data self) var = Some v \<and>
           get self var = Inr v))"
proof (intro conjI impI)
  assume "var \<notin> set (get_keys self)"
  then show "get self var =
      Inl (KeyError (''Variable '' @ [CHR 0x27] @ var @ [CHR 0x27] @ '' not found in data''))"
    by (simp add: get_def get_keys_def)
next
  assume "var \<in> set (get_keys self)"
  then have "var \<in> fst ` set (data self)"
    by (simp add: get_keys_def dict_keys_def)
  then obtain v where v: "map_of (data self) var = Some v"
    by (metis domD dom_map_of_conv_image_fst)
  then have "(var, v) \<in> set (data self)"
    by (rule map_of_SomeD)
  moreover from v \<open>var \<in> set (get_keys self)\<close> have "get self var = Inr v"
    by (simp add: get_def get_keys_def dict_getitem_def)
  ultimately show "\<exists>v. (var, v) \<in> set (data self) \<and> map_of (data self) var = Some v \<and>
      get self var = Inr v"
    using v by blast
qed

theorem C8_get_witness:
  "snd (MatData_init example_world (PathObj ''old.mat'') None None) =
     Inr \<lparr>mat_file = ''old.mat'', data = [(''y'', Scalar (1::nat))]\<rparr> \<and>
   get \<lparr>mat_file = ''old.mat'', data = [(''y'', Scalar (1::nat))]\<rparr> ''z'' =
     Inl (KeyError (''Variable '' @ [CHR 0x27] @ ''z'' @ [CHR 0x27] @ '' not found in data'')) \<and>
   (\<exists>v. (''y'', v) \<in> set [(''y'', Scalar (1::nat))] \<and>
        get \<lparr>mat_file = ''old.mat'', data = [(''y'', Scalar (1::nat))]\<rparr> ''y'' = Inr v)"
proof -
  let ?self = "\<lparr>mat_file = ''old.mat'', data = [(''y'', Scalar (1::nat))]\<rparr>"
  have built: "snd (MatData_init example_world (PathObj ''old.mat'') None None) = Inr ?self"
    by (simp add: facade_defs example_world_def load_h5py_def load_scipy_def is_OSError_def)
  have absent: "''z'' \<notin> set (get_keys ?self)"
    by (simp add: get_keys_def dict_keys_def)
  have present: "''y'' \<in> set (get_keys ?self)"
    by (simp add: get_keys_def dict_keys_def)
  from C8_get [of "''z''" ?self] absent
  have a: "get ?self ''z'' =
      Inl (KeyError (''Variable '' @ [CHR 0x27] @ ''z'' @ [CHR 0x27] @ '' not found in data''))"
    by blast
  from C8_get [of "''y''" ?self] present
  have b: "\<exists>v. (''y'', v) \<in> set [(''y'', Scalar (1::nat))] \<and> get ?self ''y'' = Inr v"
    by simp
  from built a b show ?thesis by blast
qed

section \<open>Dictionaries and comprehensions\<close>

lemma dict_set_keys: "set (dict_keys (dict_set k v d)) = insert k (set (dict_keys d))"
  unfolding dict_keys_def by (induction k v d rule: dict_set.induct) (simp_all add: insert_commute)

lemma map_of_dict_set: "map_of (dict_set k v d) = (map_of d)(k \<mapsto> v)"
  by (induction k v d rule: dict_set.induct) (auto simp: fun_eq_iff)

lemma dict_set_fresh: "k \<notin> set (dict_keys d) \<Longrightarrow> dict_set k v d = d @ [(k, v)]"
  unfolding dict_keys_def by (induction k v d rule: dict_set.induct) auto

lemma foldl_dict_set_keys:
  "set (dict_keys (foldl (\<lambda>d kv. dict_set (fst kv) (snd kv) d) acc kvs)) =
     set (dict_keys acc) \<union> fst ` set kvs"
  by (induction kvs arbitrary: acc) (simp_all add: dict_set_keys)

lemma dict_of_keys: "set (dict_keys (dict_of kvs)) = fst ` set kvs"
  by (simp add: dict_of_def foldl_dict_set_keys) (simp add: dict_keys_def)

lemma foldl_map_of_dict_set:
  "map_of (foldl (\<lambda>d kv. dict_set (fst kv) (snd kv) d) acc kvs) = map_of acc ++ map_of (rev kvs)"
  by (induction kvs arbitrary: acc) (simp_all add: map_of_dict_set)

lemma map_of_dict_of: "map_of (dict_of kvs) = map_of (rev kvs)"
  by (simp add: dict_of_def foldl_map_of_dict_set)

lemma foldl_dict_set_distinct:
  "distinct (map fst kvs) \<Longrightarrow> set (dict_keys acc) \<inter> fst ` set kvs = {} \<Longrightarrow>
     foldl (\<lambda>d kv. dict_set (fst kv) (snd kv) d) acc kvs = acc @ kvs"
proof (induction kvs arbitrary: acc)
  case Nil
  then show ?case by simp
next
  case (Cons kv kvs)
  from Cons.prems have fresh: "fst kv \<notin> set (dict_keys acc)"
    by auto
  have "foldl (\<lambda>d kv. dict_set (fst kv) (snd kv) d) (acc @ [kv]) kvs = (acc @ [kv]) @ kvs"
    using Cons.prems by (intro Cons.IH) (auto simp: dict_keys_def)
  with fresh show ?case
    by (simp add: dict_set_fresh)
qed

lemma dict_of_distinct: "distinct (map fst kvs) \<Longrightarrow> dict_of kvs = kvs"
  using foldl_dict_set_distinct [of kvs "[]"] by (simp add: dict_of_def dict_keys_def)

lemma map_result_Inr:
  "(\<And>x. x \<in> set xs \<Longrightarrow> f x = Inr (g x)) \<Longrightarrow> map_result f xs = Inr (map g xs)"
  by (induction xs) auto

lemma map_result_values_keys:
  "map_result (\<lambda>kv. case f (snd kv) of Inl e \<Rightarrow> Inl e | Inr v \<Rightarrow> Inr (fst kv, v)) xs = Inr ys
     \<Longrightarrow> map fst ys = map fst xs"
  by (induction xs arbitrary: ys) (auto split: sum.splits)

lemma simplify_data_eq:
  "simplify_data d =
     (case map_result
             (\<lambda>kv. case simplify (snd kv) of Inl e \<Rightarrow> Inl e | Inr v \<Rightarrow> Inr (fst kv, v)) d of
        Inl e \<Rightarrow> Inl e
      | Inr kvs \<Rightarrow> Inr (dict_of kvs))"
  by (simp add: simplify_data_def simplify.simps(2) split: sum.splits)

lemma simplify_data_keys:
  assumes "simplify_data d = Inr d'"
  shows "set (dict_keys d') = set (dict_keys d)"
proof -
  from assms obtain kvs where
    kvs: "map_result
            (\<lambda>kv. case simplify (snd kv) of Inl e \<Rightarrow> Inl e | Inr v \<Rightarrow> Inr (fst kv, v)) d = Inr kvs"
    and d': "d' = dict_of kvs"
    by (auto simp: simplify_data_eq split: sum.splits)
  from kvs have "map fst kvs = map fst d"
    by (rule map_result_values_keys)
  then have "fst ` set kvs = fst ` set d"
    by (metis list.set_map)
  with d' show ?thesis
    by (simp add: dict_of_keys) (simp add: dict_keys_def)
qed

lemma filter_variables_ok:
  assumes "set (it (filter (\<lambda>k. k \<in> set names) (remdups (dict_keys dat)))) =
             set (filter (\<lambda>k. k \<in> set names) (remdups (dict_keys dat)))"
  shows "\<exists>d. filter_variables it names dat = Inr d \<and>
             set (dict_keys d) = set (dict_keys dat) \<inter> set names \<and>
             (\<forall>k \<in> set (dict_keys d). map_of d k = map_of dat k)"
proof -
  let ?vars = "it (filter (\<lambda>k. k \<in> set names) (remdups (dict_keys dat)))"
  let ?g = "\<lambda>var. (var, the (map_of dat var))"
  have vars: "set ?vars = set (dict_keys dat) \<inter> set names"
    using assms by auto
  have dom: "\<exists>v. map_of dat var = Some v" if "var \<in> set ?vars" for var
  proof -
    from that vars have "var \<in> fst ` set dat"
      by (auto simp: dict_keys_def)
    then show ?thesis
      by (metis domD dom_map_of_conv_image_fst)
  qed
  have hit: "dict_getitem dat var = Inr (the (map_of dat var))" if "var \<in> set ?vars" for var
    using dom [OF that] by (auto simp: dict_getitem_def)
  have run: "map_result
      (\<lambda>var. case dict_getitem dat var of Inl e \<Rightarrow> Inl e | Inr v \<Rightarrow> Inr (var, v)) ?vars =
      Inr (map ?g ?vars)"
    by (rule map_result_Inr) (simp add: hit)
  then have res: "filter_variables it names dat = Inr (dict_of (map ?g ?vars))"
    by (simp add: filter_variables_def)
  have keys: "set (dict_keys (dict_of (map ?g ?vars))) = set ?vars"
    by (simp add: dict_of_keys image_image)
  have vals: "map_of (dict_of (map ?g ?vars)) k = map_of dat k" if "k \<in> set ?vars" for k
  proof -
    have "map_of (dict_of (map ?g ?vars)) = map_of (map ?g (rev ?vars))"
      by (simp add: map_of_dict_of rev_map)
    also have "\<dots> = (Some \<circ> (\<lambda>var. the (map_of dat var))) |` set (rev ?vars)"
      by (rule map_of_map_restrict)
    finally have "map_of (dict_of (map ?g ?vars)) k = Some (the (map_of dat k))"
      using that by simp
    with dom [OF that] show ?thesis
      by auto
  qed
  from res keys vals vars show ?thesis
    by (metis (no_types, lifting))
qed


section \<open>Filtering by variable names\<close>

lemma load_h5py_unfiltered:
  assumes "load_h5py w p None sq si = Inr full"
  shows "\<exists>mat kvs. h5py_File w p = Inr mat \<and>
      map_result (\<lambda>kv. case mat_to_dict sq (snd kv) of Inl e \<Rightarrow> Inl e | Inr v \<Rightarrow> Inr (fst kv, v)) mat
        = Inr kvs \<and>
      (if si then simplify_data (dict_of kvs) else Inr (dict_of kvs)) = Inr full"
  using assms by (auto simp: load_h5py_def truthy_names_def split: sum.splits if_splits)

lemma load_h5py_keys:
  assumes "load_h5py w p None sq si = Inr full" and "h5py_File w p = Inr mat"
  shows "set (dict_keys full) = fst ` set mat"
proof -
  from load_h5py_unfiltered [OF assms(1)] assms(2) obtain kvs where
    kvs: "map_result
            (\<lambda>kv. case mat_to_dict sq (snd kv) of Inl e \<Rightarrow> Inl e | Inr v \<Rightarrow> Inr (fst kv, v)) mat
          = Inr kvs"
    and full: "(if si then simplify_data (dict_of kvs) else Inr (dict_of kvs)) = Inr full"
    by auto
  from kvs have "map fst kvs = map fst mat"
    by (rule map_result_values_keys)
  then have "fst ` set kvs = fst ` set mat"
    by (metis list.set_map)
  moreover from full have "set (dict_keys full) = set (dict_keys (dict_of kvs))"
    by (auto split: if_splits dest: simplify_data_keys)
  ultimately show ?thesis
    by (simp add: dict_of_keys)
qed

lemma load_h5py_filtered:
  assumes "load_h5py w p None sq si = Inr full"
  shows "load_h5py w p names sq si =
     (if truthy_names names
      then filter_variables (set_iter w) (case names of None \<Rightarrow> [] | Some ns \<Rightarrow> ns) full
      else Inr full)"
  using assms by (auto simp: load_h5py_def truthy_names_def split: sum.splits if_splits)

lemma example_wf_set_iter: "wf_set_iter (set_iter example_world)"
  by (simp add: wf_set_iter_def example_world_def)

lemma example_load_full:
  "load_h5py example_world ''data.mat'' None True True =
     Inr [(''x'', Scalar 5),
          (''m'', Array (NdArray (CHR ''f'') [2, 3]
                    [Scalar 1, Scalar 3, Scalar 5, Scalar 2, Scalar 4, Scalar 6])),
          (''c'', PyList [Scalar 7, Scalar 8])]"
  by code_simp

text \<open>
  C6. Let the load of a file without a filter succeed, with the mapping \<open>full\<close>: its
  keys are all the top-level keys of the file. Then the load with an empty list of names
  returns \<open>full\<close> too, and the load with a non-empty list of names does not raise,
  whether or not the names are in the file: its keys are the top-level keys of the file
  that are among the requested names, and each key keeps its value.
\<close>

theorem C6_filter:
  assumes "wf_set_iter (set_iter w)"
    and "h5py_File w p = Inr mat"
    and "load_h5py w p None sq si = Inr full"
  shows "set (dict_keys full) = fst ` set mat \<and>
     load_h5py w p (Some []) sq si = Inr full \<and>
     (names \<noteq> [] \<longrightarrow>
        (\<exists>d. load_h5py w p (Some names) sq si = Inr d \<and>
             set (dict_keys d) = fst ` set mat \<inter> set names \<and>
             (\<forall>k \<in> set (dict_keys d). map_of d k = map_of full k)))"
proof (intro conjI impI)
  show "set (dict_keys full) = fst ` set mat"
    by (rule load_h5py_keys [OF assms(3,2)])
next
  show "load_h5py w p (Some []) sq si = Inr full"
    by (simp add: load_h5py_filtered [OF assms(3)] truthy_names_def)
next
  assume "names \<noteq> []"
  then have eq: "load_h5py w p (Some names) sq si = filter_variables (set_iter w) names full"
    by (simp add: load_h5py_filtered [OF assms(3)] truthy_names_def)
  from assms(1) have "set (set_iter w (filter (\<lambda>k. k \<in> set names) (remdups (dict_keys full)))) =
      set (filter (\<lambda>k. k \<in> set names) (remdups (dict_keys full)))"
    by (simp add: wf_set_iter_def)
  from filter_variables_ok [of "set_iter w" names full, OF this] eq
    load_h5py_keys [OF assms(3,2)]
  show "\<exists>d. load_h5py w p (Some names) sq si = Inr d \<and>
             set (dict_keys d) = fst ` set mat \<inter> set names \<and>
             (\<forall>k \<in> set (dict_keys d). map_of d k = map_of full k)"
    by simp
qed

theorem C6_filter_witness:
  "\<exists>d. load_h5py example_world ''data.mat'' (Some [''q'', ''m'', ''x'']) True True = Inr d \<and>
       set (dict_keys d) = {''x'', ''m''} \<and>
       map_of d ''x'' = Some (Scalar 5)"
proof -
  have f: "h5py_File example_world ''data.mat'' = Inr example_file"
    by (simp add: example_world_def)
  have n: "[''q'', ''m'', ''x''] \<noteq> []"
    by simp
  from C6_filter [OF example_wf_set_iter f example_load_full, of "[''q'', ''m'', ''x'']"] n
  obtain d where d: "load_h5py example_world ''data.mat'' (Some [''q'', ''m'', ''x'']) True True = Inr d"
    and k: "set (dict_keys d) = fst ` set example_file \<inter> set [''q'', ''m'', ''x'']"
    and v: "\<forall>k \<in> set (dict_keys d). map_of d k =
        map_of [(''x'', Scalar 5),
          (''m'', Array (NdArray (CHR ''f'') [2, 3]
                    [Scalar 1, Scalar 3, Scalar 5, Scalar 2, Scalar 4, Scalar 6])),
          (''c'', PyList [Scalar 7, Scalar 8])] k"
    by blast
  from k have k': "set (dict_keys d) = {''x'', ''m''}"
    by (auto simp: example_file_def)
  with v have "map_of d ''x'' = Some (Scalar 5)"
    by simp
  with d k' show ?thesis
    by blast
qed


section \<open>Order of the keys\<close>

lemma simplify_data_keys_order:
  assumes "simplify_data d = Inr d'" and "distinct (dict_keys d)"
  shows "dict_keys d' = dict_keys d"
proof -
  from assms(1) obtain kvs where
    kvs: "map_result
            (\<lambda>kv. case simplify (snd kv) of Inl e \<Rightarrow> Inl e | Inr v \<Rightarrow> Inr (fst kv, v)) d = Inr kvs"
    and d': "d' = dict_of kvs"
    by (auto simp: simplify_data_eq split: sum.splits)
  from kvs have keys: "map fst kvs = map fst d"
    by (rule map_result_values_keys)
  with assms(2) have "dict_of kvs = kvs"
    by (simp add: dict_of_distinct dict_keys_def)
  with d' keys show ?thesis
    by (simp add: dict_keys_def)
qed

lemma load_h5py_keys_order:
  assumes "load_h5py w p None sq si = Inr full" and "h5py_File w p = Inr mat"
    and "distinct (map fst mat)"
  shows "dict_keys full = map fst mat"
proof -
  from load_h5py_unfiltered [OF assms(1)] assms(2) obtain kvs where
    kvs: "map_result
            (\<lambda>kv. case mat_to_dict sq (snd kv) of Inl e \<Rightarrow> Inl e | Inr v \<Rightarrow> Inr (fst kv, v)) mat
          = Inr kvs"
    and full: "(if si then simplify_data (dict_of kvs) else Inr (dict_of kvs)) = Inr full"
    by auto
  from kvs have keys: "map fst kvs = map fst mat"
    by (rule map_result_values_keys)
  with assms(3) have d: "dict_of kvs = kvs"
    by (simp add: dict_of_distinct)
  from full d keys assms(3) have "dict_keys full = dict_keys kvs"
    by (auto split: if_splits dest!: simplify_data_keys_order simp: dict_keys_def)
  with keys show ?thesis
    by (simp add: dict_keys_def)
qed

lemma load_h5py_Inr_unfiltered:
  assumes "load_h5py w p names sq si = Inr d"
  shows "\<exists>full. load_h5py w p None sq si = Inr full"
  using assms by (auto simp: load_h5py_def truthy_names_def split: sum.splits if_splits)

lemma filter_variables_order:
  assumes "wf_set_iter it" and "distinct (dict_keys dat)"
    and "filter_variables it names dat = Inr d"
  shows "dict_keys d = it (filter (\<lambda>k. k \<in> set names) (dict_keys dat)) \<and>
         distinct (dict_keys d) \<and> set (dict_keys d) = set (dict_keys dat) \<inter> set names"
proof -
  let ?vars = "it (filter (\<lambda>k. k \<in> set names) (dict_keys dat))"
  from assms(3) obtain kvs where
    kvs: "map_result
      (\<lambda>var. case dict_getitem dat var of Inl e \<Rightarrow> Inl e | Inr v \<Rightarrow> Inr (var, v)) ?vars = Inr kvs"
    and d: "d = dict_of kvs"
    using assms(2) by (auto simp: filter_variables_def distinct_remdups_id split: sum.splits)
  have keys: "map fst ys = xs"
    if "map_result
      (\<lambda>var. case dict_getitem dat var of Inl e \<Rightarrow> Inl e | Inr v \<Rightarrow> Inr (var, v)) xs = Inr ys"
    for xs ys
    using that by (induction xs arbitrary: ys) (auto split: sum.splits)
  from assms(1,2) have dv: "distinct ?vars" and sv: "set ?vars = set (dict_keys dat) \<inter> set names"
    by (auto simp: wf_set_iter_def)
  from keys [OF kvs] dv have "dict_of kvs = kvs"
    by (simp add: dict_of_distinct)
  with d keys [OF kvs] dv sv show ?thesis
    by (simp add: dict_keys_def)
qed

lemma MatData_init_single_h5py:
  assumes "MatData_init w (PathObj p) names version = ([Call LoadH5py p' ns sq si], Inr self)"
  shows "load_h5py w p names True True = Inr (data self) \<and> mat_file self = p"
  using assms
  by (auto simp: facade_defs Let_def split: if_splits option.splits sum.splits)

text \<open>
  C9, as stated: the keys are listed in the store's iteration order also when a filter
  was applied. The filter builds a Python set and iterates over it, and the order of a
  set is not the store's: where the set \<open>{x, m}\<close> is iterated as \<open>m, x\<close>, the facade built
  from \<open>data.mat\<close>, whose store yields \<open>x, m, c\<close>, lists \<open>m\<close> before \<open>x\<close>.
\<close>

theorem C9_filtered_keys_in_set_order:
  "wf_set_iter (set_iter example_world) \<and>
   map fst example_file = [''x'', ''m'', ''c''] \<and>
   MatData_init example_world (PathObj ''data.mat'') (Some [''x'', ''m'']) None =
     ([Call LoadH5py ''data.mat'' (Some [''x'', ''m'']) True True],
      Inr \<lparr>mat_file = ''data.mat'',
           data = [(''m'', Array (NdArray (CHR ''f'') [2, 3]
                     [Scalar 1, Scalar 3, Scalar 5, Scalar 2, Scalar 4, Scalar 6])),
                   (''x'', Scalar 5)]\<rparr>) \<and>
   get_keys \<lparr>mat_file = ''data.mat'',
             data = [(''m'', Array (NdArray (CHR ''f'') [2, 3]
                       [Scalar 1, Scalar 3, Scalar 5, Scalar 2, Scalar 4, Scalar (6::nat)])),
                     (''x'', Scalar 5)]\<rparr> = [''m'', ''x'']"
proof -
  have "map fst example_file = [''x'', ''m'', ''c'']"
    by (simp add: example_file_def)
  moreover have "MatData_init example_world (PathObj ''data.mat'') (Some [''x'', ''m'']) None =
     ([Call LoadH5py ''data.mat'' (Some [''x'', ''m'']) True True],
      Inr \<lparr>mat_file = ''data.mat'',
           data = [(''m'', Array (NdArray (CHR ''f'') [2, 3]
                     [Scalar 1, Scalar 3, Scalar 5, Scalar 2, Scalar 4, Scalar 6])),
                   (''x'', Scalar 5)]\<rparr>)"
    by code_simp
  ultimately show ?thesis
    using example_wf_set_iter by (simp add: get_keys_def dict_keys_def)
qed

text \<open>
  C9, amended: \<open>get_keys\<close> returns the keys of the loaded mapping in the mapping's order.
  When the hierarchical adapter loaded the data from a store with distinct names, and no
  filter (or an empty one) was given, these are the store's top-level names in the
  store's iteration order. With a non-empty filter they are the names of the store that
  were requested, each once, in the order in which Python iterates over the set of them.
\<close>

theorem C9_get_keys:
  assumes "wf_set_iter (set_iter w)"
    and "h5py_File w p = Inr mat"
    and "distinct (map fst mat)"
    and "MatData_init w (PathObj p) names version = ([Call LoadH5py p' ns sq si], Inr self)"
  shows "get_keys self = dict_keys (data self) \<and>
     (names = None \<or> names = Some [] \<longrightarrow> get_keys self = map fst mat) \<and>
     (\<forall>req. names = Some req \<and> req \<noteq> [] \<longrightarrow>
        get_keys self = set_iter w (filter (\<lambda>k. k \<in> set req) (map fst mat)) \<and>
        distinct (get_keys self) \<and>
        set (get_keys self) = set (map fst mat) \<inter> set req)"
proof -
  from MatData_init_single_h5py [OF assms(4)]
  have load: "load_h5py w p names True True = Inr (data self)"
    by simp
  then obtain full where full: "load_h5py w p None True True = Inr full"
    by (blast dest: load_h5py_Inr_unfiltered)
  have fk: "dict_keys full = map fst mat"
    by (rule load_h5py_keys_order [OF full assms(2,3)])
  have eq: "Inr (data self) =
     (if truthy_names names
      then filter_variables (set_iter w) (case names of None \<Rightarrow> [] | Some ns \<Rightarrow> ns) full
      else Inr full)"
    using load_h5py_filtered [OF full, of names] load by simp
  have a: "get_keys self = map fst mat" if "names = None \<or> names = Some []"
    using that eq fk by (auto simp: truthy_names_def get_keys_def)
  have b: "get_keys self = set_iter w (filter (\<lambda>k. k \<in> set req) (map fst mat)) \<and>
        distinct (get_keys self) \<and> set (get_keys self) = set (map fst mat) \<inter> set req"
    if "names = Some req \<and> req \<noteq> []" for req
  proof -
    from that eq have "filter_variables (set_iter w) req full = Inr (data self)"
      by (simp add: truthy_names_def)
    moreover from fk assms(3) have "distinct (dict_keys full)"
      by simp
    ultimately have "dict_keys (data self) =
          set_iter w (filter (\<lambda>k. k \<in> set req) (dict_keys full)) \<and>
        distinct (dict_keys (data self)) \<and>
        set (dict_keys (data self)) = set (dict_keys full) \<inter> set req"
      by (intro filter_variables_order [OF assms(1)])
    then show ?thesis
      unfolding get_keys_def fk .
  qed
  from a b show ?thesis
    unfolding get_keys_def by blast
qed


theorem C9_get_keys_witness:
  "get_keys \<lparr>mat_file = ''data.mat'',
             data = [(''c'', PyList [Scalar 7, Scalar 8]), (''x'', Scalar (5::nat))]\<rparr> =
     set_iter example_world [''x'', ''c''] \<and>
   distinct (get_keys \<lparr>mat_file = ''data.mat'',
             data = [(''c'', PyList [Scalar 7, Scalar 8]), (''x'', Scalar (5::nat))]\<rparr>)"
proof -
  let ?self = "\<lparr>mat_file = ''data.mat'',
             data = [(''c'', PyList [Scalar 7, Scalar 8]), (''x'', Scalar (5::nat))]\<rparr>"
  have f: "h5py_File example_world ''data.mat'' = Inr example_file"
    by (simp add: example_world_def)
  have d: "distinct (map fst example_file)"
    by (simp add: example_file_def)
  have i: "MatData_init example_world (PathObj ''data.mat'') (Some [''c'', ''q'', ''x'']) None =
     ([Call LoadH5py ''data.mat'' (Some [''c'', ''q'', ''x'']) True True], Inr ?self)"
    by code_simp
  from C9_get_keys [OF example_wf_set_iter f d i]
  have "get_keys ?self =
          set_iter example_world
            (filter (\<lambda>k. k \<in> set [''c'', ''q'', ''x'']) (map fst example_file)) \<and>
        distinct (get_keys ?self)"
    by blast
  then show ?thesis
    by (simp add: example_file_def example_world_def)
qed

section \<open>Datasets: transposition, squeeze and scalars\<close>

lemma valid_index_Cons:
  "valid_index (d # ds) idx = (\<exists>i is. idx = i # is \<and> i < d \<and> valid_index ds is)"
  by (cases idx) (auto simp: valid_index_def)

lemma valid_index_Nil [simp]: "valid_index [] idx = (idx = [])"
  by (simp add: valid_index_def)

lemma valid_index_prod_pos: "valid_index sh idx \<Longrightarrow> 0 < prod_list sh"
  by (induction sh arbitrary: idx) (auto simp: valid_index_Cons)

lemma flat_index_less: "valid_index sh idx \<Longrightarrow> flat_index sh idx < prod_list sh"
proof (induction sh arbitrary: idx)
  case Nil
  then show ?case by simp
next
  case (Cons d ds)
  then obtain i "is" where idx: "idx = i # is" and i: "i < d" and v: "valid_index ds is"
    by (auto simp: valid_index_Cons)
  from Cons.IH [OF v] have "flat_index ds is < prod_list ds" .
  moreover from i have "Suc i * prod_list ds \<le> d * prod_list ds"
    by (intro mult_le_mono1) simp
  ultimately show ?case
    using idx by simp
qed

lemma unflat_flat_index: "valid_index sh idx \<Longrightarrow> unflat_index sh (flat_index sh idx) = idx"
proof (induction sh arbitrary: idx)
  case Nil
  then show ?case by simp
next
  case (Cons d ds)
  then obtain i "is" where idx: "idx = i # is" and i: "i < d" and v: "valid_index ds is"
    by (auto simp: valid_index_Cons)
  from flat_index_less [OF v] have lt: "flat_index ds is < prod_list ds" .
  with Cons.IH [OF v] idx show ?case
    by simp
qed

lemma unflat_index_valid: "n < prod_list sh \<Longrightarrow> valid_index sh (unflat_index sh n)"
proof (induction sh arbitrary: n)
  case Nil
  then show ?case by simp
next
  case (Cons d ds)
  from Cons.prems have pos: "0 < prod_list ds"
    by (cases "prod_list ds = 0") auto
  from Cons.prems have "n div prod_list ds < d"
    by (simp add: less_mult_imp_div_less mult.commute)
  moreover from pos have "valid_index ds (unflat_index ds (n mod prod_list ds))"
    by (intro Cons.IH) simp
  ultimately show ?case
    by (simp add: valid_index_Cons)
qed

lemma valid_index_rev: "valid_index sh idx \<Longrightarrow> valid_index (rev sh) (rev idx)"
  by (simp add: valid_index_def list_all2_rev)

lemma valid_index_length: "valid_index sh idx \<Longrightarrow> length idx = length sh"
  by (simp add: valid_index_def list_all2_lengthD)


lemma nd_T_shape: "shape (nd_T a) = rev (shape a)"
  by (simp add: nd_T_def)

lemma nd_T_wf: "wf_ndarray a \<Longrightarrow> wf_ndarray (nd_T a)"
  by (simp add: wf_ndarray_def nd_T_def)

lemma nd_T_get:
  assumes "wf_ndarray a" and "valid_index (shape a) idx"
  shows "nd_get (nd_T a) (rev idx) = nd_get a idx"
proof -
  let ?j = "flat_index (rev (shape a)) (rev idx)"
  from assms(2) have v: "valid_index (rev (shape a)) (rev idx)"
    by (rule valid_index_rev)
  then have "?j < prod_list (rev (shape a))"
    by (rule flat_index_less)
  with assms(1) have lt: "?j < length (elems a)"
    by (simp add: wf_ndarray_def)
  have "nd_get (nd_T a) (rev idx) =
      elems a ! flat_index (shape a) (rev (unflat_index (rev (shape a)) ?j))"
    using lt by (simp add: nd_get_def nd_T_def)
  also have "unflat_index (rev (shape a)) ?j = rev idx"
    using v by (rule unflat_flat_index)
  finally show ?thesis
    by (simp add: nd_get_def)
qed

lemma nd_T_singleton:
  assumes "elems a = [x]" and "prod_list (shape a) = 1"
  shows "elems (nd_T a) = [x]"
proof -
  have "0 < prod_list (rev (shape a))"
    using assms(2) by simp
  then have "valid_index (rev (shape a)) (unflat_index (rev (shape a)) 0)"
    by (rule unflat_index_valid)
  then have "valid_index (shape a) (rev (unflat_index (rev (shape a)) 0))"
    using valid_index_rev by fastforce
  then have "flat_index (shape a) (rev (unflat_index (rev (shape a)) 0)) < prod_list (shape a)"
    by (rule flat_index_less)
  with assms show ?thesis
    by (simp add: nd_T_def)
qed

lemma filter_ones_prod: "filter (\<lambda>d. d \<noteq> Suc 0) sh = [] \<Longrightarrow> prod_list sh = Suc 0"
  by (induction sh) (auto split: if_splits)

lemma dataset_steps_shape:
  "shape (dataset_steps sq a) =
     (let sh = (if ndim a > 1 then rev (shape a) else shape a)
      in if sq then filter (\<lambda>d. d \<noteq> 1) sh else sh)"
  by (simp add: dataset_steps_def Let_def squeeze_def nd_T_def)

lemma dataset_steps_elems:
  "elems (dataset_steps sq a) = (if ndim a > 1 then elems (nd_T a) else elems a)"
  by (simp add: dataset_steps_def Let_def squeeze_def)

lemma dataset_steps_kind: "kind (dataset_steps sq a) = kind a"
  by (simp add: dataset_steps_def Let_def squeeze_def nd_T_def)

lemma read_dataset_NumpyValue:
  "shape a \<noteq> [] \<or> kind a \<noteq> CHR ''O'' \<Longrightarrow> read_dataset a = NumpyValue a"
  by (auto simp: read_dataset_def)

lemma dataset_steps_shape_Nil: "shape a = [] \<Longrightarrow> shape (dataset_steps sq a) = []"
  by (simp add: dataset_steps_shape ndim_def)

text \<open>
  The scalar collapse for a dataset that h5py returns as a numpy value: when the shape
  after the transposition and the squeeze step is empty, \<open>_mat_to_dict\<close> returns the only
  element of the array as a bare scalar.
\<close>

lemma mat_to_dict_scalar_collapse:
  assumes "wf_ndarray a" and "shape (dataset_steps squeeze_me a) = []"
    and "shape a \<noteq> [] \<or> kind a \<noteq> CHR ''O''"
  shows "\<exists>x. elems a = [x] \<and> mat_to_dict squeeze_me (Dataset a) = Inr (Scalar x)"
proof -
  from assms(2) have "prod_list (shape a) = 1"
    by (auto simp: dataset_steps_shape Let_def rev_filter [symmetric] ndim_def
        split: if_splits intro: filter_ones_prod)
  with assms(1) have len: "length (elems a) = 1" and p: "prod_list (shape a) = 1"
    by (simp_all add: wf_ndarray_def)
  then obtain x where x: "elems a = [x]"
    by (cases "elems a") auto
  from x p have "elems (nd_T a) = [x]"
    by (rule nd_T_singleton)
  with x have "elems (dataset_steps squeeze_me a) = [x]"
    by (simp add: dataset_steps_elems)
  with assms(2) read_dataset_NumpyValue [OF assms(3)]
  have "mat_to_dict squeeze_me (Dataset a) = Inr (Scalar x)"
    by (simp add: item_def)
  with x show ?thesis
    by blast
qed

lemma mat_to_dict_scalar_example:
  "mat_to_dict True (Dataset (NdArray (CHR ''f'') [1, 1] [5::nat])) = Inr (Scalar 5)"
  by code_simp

text \<open>
  C4. A dataset whose shape is empty after the squeeze step should come back as a bare
  scalar. A dataset that stores an array of no dimension and of kind \<open>O\<close> (a scalar
  variable-length string) has the empty shape, before and after the squeeze step, but
  \<open>mat_obj[()]\<close> is then the Python object itself and not a numpy value, although the
  code's comment says that datasets are converted to numpy arrays: the test
  \<open>data.ndim > 1\<close> raises an attribute error, and no scalar is returned.
\<close>

theorem C4_attribute_error_for_scalar_object_dataset:
  "wf_ndarray (NdArray (CHR ''O'') [] [7::nat]) \<and>
   shape (dataset_steps True (NdArray (CHR ''O'') [] [7::nat])) = [] \<and>
   mat_to_dict True (Dataset (NdArray (CHR ''O'') [] [7::nat])) =
     Inl (Raised AttributeErrorClass ''ndim'')"
  by (simp add: wf_ndarray_def dataset_steps_shape ndim_def read_dataset_def)

text \<open>
  C3, as stated: for a dataset of more than one dimension the returned array's
  dimensions are the stored ones in reverse. With squeeze enabled, as the facade always
  has it, the axes of length one are removed after the transposition: a dataset stored
  with shape \<open>(1, 3)\<close> comes back with shape \<open>(3,)\<close>, not \<open>(3, 1)\<close>.
\<close>

theorem C3_unit_axis_lost:
  "ndim (NdArray (CHR ''f'') [1, 3] [1, 2, 3::nat]) > 1 \<and>
   mat_to_dict True (Dataset (NdArray (CHR ''f'') [1, 3] [1, 2, 3::nat])) =
     Inr (Array (NdArray (CHR ''f'') [3] [Scalar 1, Scalar 2, Scalar 3])) \<and>
   shape (NdArray (CHR ''f'') [3] [Scalar 1, Scalar 2, Scalar (3::nat)]) \<noteq>
     rev (shape (NdArray (CHR ''f'') [1, 3] [1, 2, 3::nat]))"
  by code_simp

text \<open>
  C3, amended: a dataset of more than one dimension is transposed before anything else:
  the transposed array has the stored shape reversed, and at the reverse of every index
  the element stored at that index. The returned array has the elements of the
  transposed array, and its shape is the reversed shape, without the axes of length one
  when squeeze is enabled. A dataset of one or no dimension is not transposed: the
  elements stay in the stored order. (When no axis is left, no array is returned.)
\<close>

theorem C3_transpose_then_squeeze:
  assumes "wf_ndarray a"
  shows "(ndim a > 1 \<longrightarrow>
            shape (nd_T a) = rev (shape a) \<and>
            (\<forall>idx. valid_index (shape a) idx \<longrightarrow> nd_get (nd_T a) (rev idx) = nd_get a idx) \<and>
            elems (dataset_steps squeeze_me a) = elems (nd_T a) \<and>
            shape (dataset_steps squeeze_me a) =
              (if squeeze_me then filter (\<lambda>d. d \<noteq> 1) (rev (shape a)) else rev (shape a))) \<and>
         (ndim a \<le> 1 \<longrightarrow>
            elems (dataset_steps squeeze_me a) = elems a \<and>
            shape (dataset_steps squeeze_me a) =
              (if squeeze_me then filter (\<lambda>d. d \<noteq> 1) (shape a) else shape a)) \<and>
         (shape (dataset_steps squeeze_me a) \<noteq> [] \<longrightarrow>
            mat_to_dict squeeze_me (Dataset a) =
              Inr (Array (map_ndarray Scalar (dataset_steps squeeze_me a))))"
proof (intro conjI impI allI)
  show "shape (nd_T a) = rev (shape a)"
    by (rule nd_T_shape)
next
  fix idx
  assume "valid_index (shape a) idx"
  with assms show "nd_get (nd_T a) (rev idx) = nd_get a idx"
    by (rule nd_T_get)
next
  assume "1 < ndim a"
  then show "elems (dataset_steps squeeze_me a) = elems (nd_T a)"
    by (simp add: dataset_steps_elems)
next
  assume "1 < ndim a"
  then show "shape (dataset_steps squeeze_me a) =
      (if squeeze_me then filter (\<lambda>d. d \<noteq> 1) (rev (shape a)) else rev (shape a))"
    by (simp add: dataset_steps_shape)
next
  assume "ndim a \<le> 1"
  then show "elems (dataset_steps squeeze_me a) = elems a"
    by (simp add: dataset_steps_elems)
next
  assume "ndim a \<le> 1"
  then show "shape (dataset_steps squeeze_me a) =
      (if squeeze_me then filter (\<lambda>d. d \<noteq> 1) (shape a) else shape a)"
    by (simp add: dataset_steps_shape)
next
  assume s: "shape (dataset_steps squeeze_me a) \<noteq> []"
  then have "shape a \<noteq> []"
    by (auto dest: dataset_steps_shape_Nil)
  then have "read_dataset a = NumpyValue a"
    by (simp add: read_dataset_NumpyValue)
  with s show "mat_to_dict squeeze_me (Dataset a) =
      Inr (Array (map_ndarray Scalar (dataset_steps squeeze_me a)))"
    by simp
qed

theorem C3_transpose_then_squeeze_witness:
  "mat_to_dict True (Dataset (NdArray (CHR ''f'') [3, 1, 2] [1, 2, 3, 4, 5, 6::nat])) =
     Inr (Array (NdArray (CHR ''f'') [2, 3]
            [Scalar 1, Scalar 3, Scalar 5, Scalar 2, Scalar 4, Scalar 6])) \<and>
   nd_get (nd_T (NdArray (CHR ''f'') [3, 1, 2] [1, 2, 3, 4, 5, 6::nat])) [1, 0, 2] =
     nd_get (NdArray (CHR ''f'') [3, 1, 2] [1, 2, 3, 4, 5, 6::nat]) [2, 0, 1]"
proof -
  let ?a = "NdArray (CHR ''f'') [3, 1, 2] [1, 2, 3, 4, 5, 6::nat]"
  have w: "wf_ndarray ?a"
    by (simp add: wf_ndarray_def)
  have n: "ndim ?a > 1"
    by (simp add: ndim_def)
  have v: "valid_index (shape ?a) [2, 0, 1]"
    by (simp add: valid_index_def)
  have t: "nd_T ?a = NdArray (CHR ''f'') [2, 1, 3] [1, 3, 5, 2, 4, 6]"
    by code_simp
  note c3 = C3_transpose_then_squeeze [OF w, of True]
  from c3 n v have g: "nd_get (nd_T ?a) (rev [2, 0, 1]) = nd_get ?a [2, 0, 1]"
    by blast
  from c3 n have e: "elems (dataset_steps True ?a) = elems (nd_T ?a)"
    and s: "shape (dataset_steps True ?a) = filter (\<lambda>d. d \<noteq> 1) (rev (shape ?a))"
    by simp_all
  from s have "shape (dataset_steps True ?a) \<noteq> []"
    by simp
  with c3 have "mat_to_dict True (Dataset ?a) =
      Inr (Array (map_ndarray Scalar (dataset_steps True ?a)))"
    by blast
  moreover have "dataset_steps True ?a = NdArray (CHR ''f'') [2, 3] [1, 3, 5, 2, 4, 6]"
    using e s t by (intro ndarray.expand) (simp add: dataset_steps_kind)
  ultimately show ?thesis
    using g by simp
qed


section \<open>Simplification of cells\<close>


















end
